theory Spec2Isabelle
  imports Complex_Main "HOL-Library.Word"
begin

section \<open>Data model of the pose generator\<close>

text \<open>
  The embedded program is \<^verbatim>\<open>tools/src/poseGenerator.cpp\<close> with its header
  \<^verbatim>\<open>tools/include/poseGenerator.hpp\<close>. A C++ \<^verbatim>\<open>double\<close> or \<^verbatim>\<open>float\<close> is
  modelled by the real number it denotes (finite values only: NaN and the infinities
  are outside the model), \<^verbatim>\<open>uint32_t\<close> by \<open>32 word\<close>, \<^verbatim>\<open>std::string\<close> by
  \<open>string\<close>, \<^verbatim>\<open>std::vector\<close> by \<open>list\<close>.
\<close>

text \<open>\<^verbatim>\<open>struct randParams { std::string distribution; double max; double stdDev; }\<close>;
  the field \<^verbatim>\<open>max\<close> is called \<open>rp_max\<close> here (\<open>max\<close> is a HOL constant).\<close>

record randParams =
  distribution :: string
  rp_max :: real
  stdDev :: real

text \<open>\<^verbatim>\<open>struct perturbParams\<close>; its fields carry the prefix \<open>p_\<close>, since the
  fields of \<^verbatim>\<open>Augmenter::Pose\<close> have the same names.\<close>

record perturbParams =
  p_shift :: randParams
  p_rotation :: randParams
  p_forward :: randParams
  p_sensor_yaw :: randParams
  p_sensor_pitch :: randParams
  p_sensor_roll :: randParams
  p_flip :: bool

text \<open>
  \<^verbatim>\<open>Augmenter::Pose\<close> is declared outside the repository; these are the fields the
  generator reads and writes. The three sensor fields are \<^verbatim>\<open>std::map<std::string, float>\<close>.
\<close>

record Pose =
  shift :: real
  rotation :: real
  forward :: real
  sensor_yaw :: "string \<rightharpoonup> real"
  sensor_pitch :: "string \<rightharpoonup> real"
  sensor_roll :: "string \<rightharpoonup> real"
  flip :: bool
  srcFrame :: "32 word"

text \<open>
  The ways a call ends without a value. The exceptions the code throws have one
  constructor for each throw site's meaning; \<open>OutOfRange\<close> is the
  \<^verbatim>\<open>std::out_of_range\<close> of \<^verbatim>\<open>vector::at\<close>. \<open>UndefinedBehaviour\<close> is no exception:
  it marks a run that has executed an operation whose behaviour the language leaves
  undefined, after which nothing is known of the program.
\<close>

datatype error =
    InvalidRule
  | UnknownDistribution
  | NoMatchingRule
  | FrameCountMismatch
  | InternalInconsistency
  | TraceLoadError
  | OutOfRange
  | UndefinedBehaviour

subsection \<open>What the code calls and does not define\<close>

text \<open>
  The standard library's random number facilities are parameters of the model: the
  engine's state is any type \<open>'g\<close>, a \<^verbatim>\<open>std::normal_distribution\<close> object is any type
  \<open>'d\<close> (the object keeps state between two calls, so a call returns the object too).
  \<^item> \<open>std_mt19937_64 seed\<close>: the engine constructed from the seed;
  \<^item> \<open>std_normal_distribution mean stddev\<close>: a new distribution object;
  \<^item> \<open>std_normal_call d g\<close>: \<^verbatim>\<open>d(g)\<close>, the variate, the object and the engine after it;
  \<^item> \<open>std_uniform_real_distribution a b g\<close>: a new object called once;
  \<^item> \<open>std_shuffle xs g\<close>: \<^verbatim>\<open>std::shuffle(xs.begin(), xs.end(), g)\<close>.
\<close>

record ('g, 'd) stdlib =
  std_mt19937_64 :: "32 word \<Rightarrow> 'g"
  std_normal_distribution :: "real \<Rightarrow> real \<Rightarrow> 'd"
  std_normal_call :: "'d \<Rightarrow> 'g \<Rightarrow> real \<times> 'd \<times> 'g"
  std_uniform_real_distribution :: "real \<Rightarrow> real \<Rightarrow> 'g \<Rightarrow> real \<times> 'g"
  std_shuffle :: "Pose list \<Rightarrow> 'g \<Rightarrow> Pose list \<times> 'g"


text \<open>
  The label trace \<^verbatim>\<open>projMetaData::projMetaTrace\<close>, of any type \<open>'t\<close>: its constructor
  from a file name (\<open>None\<close> when it throws), \<^verbatim>\<open>getNumDatapoints\<close> and \<^verbatim>\<open>doLabelsMatch\<close>.
\<close>

record 't projMetaTraceApi =
  projMetaTrace :: "string \<Rightarrow> 't option"
  getNumDatapoints :: "'t \<Rightarrow> nat"
  doLabelsMatch :: "'t \<Rightarrow> 32 word \<Rightarrow> (string \<times> string) list \<Rightarrow> bool"

subsection \<open>Effects: the engine's state, exceptions, and loops that may not end\<close>

text \<open>
  A member function that draws from \<^verbatim>\<open>m_generator\<close> maps the engine's state to \<open>None\<close>
  when it does not return, and otherwise to its outcome (\<open>Inl\<close> the exception thrown,
  \<open>Inr\<close> the value returned) with the engine's state at that moment: the object outlives
  an exception, and the draws made before it stay made.
\<close>

type_synonym ('a, 'g) M = "'g \<Rightarrow> ((error + 'a) \<times> 'g) option"

definition returnM :: "'a \<Rightarrow> ('a, 'g) M" where
  "returnM x = (\<lambda>g. Some (Inr x, g))"

definition throwM :: "error \<Rightarrow> ('a, 'g) M" where
  "throwM e = (\<lambda>g. Some (Inl e, g))"

definition bindM :: "('a, 'g) M \<Rightarrow> ('a \<Rightarrow> ('b, 'g) M) \<Rightarrow> ('b, 'g) M" where
  "bindM m f = (\<lambda>g. case m g of
       None \<Rightarrow> None
     | Some (Inl e, g') \<Rightarrow> Some (Inl e, g')
     | Some (Inr x, g') \<Rightarrow> f x g')"

subsection \<open>Conversion from double to float\<close>

text \<open>
  Every sampler computes in \<^verbatim>\<open>double\<close> and returns \<^verbatim>\<open>float\<close>, so its \<^verbatim>\<open>return\<close>
  converts: IEEE 754 binary32, round to nearest, ties to even (24 significant bits,
  exponents from -126 to 127, subnormals below). \<open>float_exp_scan 253 a\<close> is the
  exponent \<open>e\<close> with \<open>2^e \<le> a < 2^(e+1)\<close>, kept within -126 and 127;
  \<open>float_round_abs\<close> rounds a magnitude to a multiple of the unit in the last place
  for that exponent. The largest float is \<open>float_max = 2^128 - 2^104\<close>. A magnitude of
  \<open>2^128 - 2^103\<close> or more overflows: the conversion of the code gives an infinity,
  for which the model has no number. There the value of \<open>double_to_float\<close>, which is
  \<open>2^128\<close> or more and so no float, only stands for a magnitude beyond every float,
  and no statement about a bound is made of it.
\<close>

definition pow2 :: "int \<Rightarrow> real" where
  "pow2 e = (if 0 \<le> e then 2 ^ nat e else 1 / 2 ^ nat (- e))"

fun float_exp_scan :: "nat \<Rightarrow> real \<Rightarrow> int" where
  "float_exp_scan 0 a = - 126"
| "float_exp_scan (Suc k) a =
     (if pow2 (int k - 125) \<le> a then int k - 125 else float_exp_scan k a)"

definition round_half_even :: "real \<Rightarrow> int" where
  "round_half_even q =
     (let n = \<lfloor>q\<rfloor>; r = q - of_int n
      in if r < 1 / 2 then n else if 1 / 2 < r then n + 1
         else if even n then n else n + 1)"

definition float_round_abs :: "real \<Rightarrow> real" where
  "float_round_abs a =
     of_int (round_half_even (a / pow2 (float_exp_scan 253 a - 23))) *
       pow2 (float_exp_scan 253 a - 23)"

definition double_to_float :: "real \<Rightarrow> real" where
  "double_to_float x = sgn x * float_round_abs \<bar>x\<bar>"

definition float_max :: real where
  "float_max = 2 ^ 128 - 2 ^ 104"

section \<open>The random variate sampler\<close>

text \<open>
  \<^verbatim>\<open>genGaussianRV\<close>, lines 200 to 214. The \<^verbatim>\<open>while\<close> loop redraws from the same
  distribution object while the variate is outside \<open>[-max, max]\<close>; nothing bounds the
  number of rounds, so the loop is a partial function.
\<close>

partial_function (option) genGaussianRV_loop ::
  "('g, 'd) stdlib \<Rightarrow> randParams \<Rightarrow> 'd \<Rightarrow> real \<Rightarrow> 'g \<Rightarrow> (real \<times> 'g) option" where
  "genGaussianRV_loop L params distribution_norm numGauss g =
     (if numGauss < - rp_max params \<or> numGauss > rp_max params
      then (case std_normal_call L distribution_norm g of
              (numGauss', distribution_norm', g') \<Rightarrow>
                genGaussianRV_loop L params distribution_norm' numGauss' g')
      else Some (numGauss, g))"

definition genGaussianRV :: "('g, 'd) stdlib \<Rightarrow> randParams \<Rightarrow> (real, 'g) M" where
  "genGaussianRV L params = (\<lambda>g.
     (case std_normal_call L (std_normal_distribution L 0 (stdDev params)) g of
        (numGauss, distribution_norm, g') \<Rightarrow>
          (case genGaussianRV_loop L params distribution_norm numGauss g' of
             None \<Rightarrow> None
           | Some (numGauss', g'') \<Rightarrow> Some (Inr (double_to_float numGauss'), g''))))"

text \<open>\<^verbatim>\<open>genUniformRV\<close>, lines 216 to 223.\<close>

definition genUniformRV :: "('g, 'd) stdlib \<Rightarrow> randParams \<Rightarrow> (real, 'g) M" where
  "genUniformRV L params = (\<lambda>g.
     (case std_uniform_real_distribution L (- rp_max params) (rp_max params) g of
        (numUnif, g') \<Rightarrow> Some (Inr (double_to_float numUnif), g')))"

text \<open>\<^verbatim>\<open>getRandom\<close>, lines 181 to 198.\<close>

definition getRandom :: "('g, 'd) stdlib \<Rightarrow> randParams \<Rightarrow> (real, 'g) M" where
  "getRandom L rParams =
     (if distribution rParams = ''gaussian'' \<or> distribution rParams = ''normal''
      then genGaussianRV L rParams
      else if distribution rParams = ''uniform''
      then genUniformRV L rParams
      else throwM UnknownDistribution)"

section \<open>The pose synthesizer\<close>

text \<open>\<^verbatim>\<open>Augmenter::Pose aPose = {}\<close>: every field value-initialised.\<close>

definition empty_Pose :: Pose where
  "empty_Pose = \<lparr>shift = 0, rotation = 0, forward = 0,
     sensor_yaw = Map.empty, sensor_pitch = Map.empty, sensor_roll = Map.empty,
     flip = False, srcFrame = 0\<rparr>"

text \<open>\<^verbatim>\<open>std::map::insert\<close>: the entry is added only when the key is not yet there.\<close>

definition map_insert :: "('k \<rightharpoonup> 'v) \<Rightarrow> 'k \<Rightarrow> 'v \<Rightarrow> ('k \<rightharpoonup> 'v)" where
  "map_insert m k v = (case m k of None \<Rightarrow> m(k \<mapsto> v) | Some old \<Rightarrow> m)"

text \<open>The loop over \<^verbatim>\<open>m_sensorNames\<close> in \<^verbatim>\<open>generateOnePose\<close>, lines 156 to 164:
  three draws for each name, each inserted under that name.\<close>

fun generateOnePose_sensors ::
  "('g, 'd) stdlib \<Rightarrow> perturbParams \<Rightarrow> string list \<Rightarrow> Pose \<Rightarrow> (Pose, 'g) M" where
  "generateOnePose_sensors L params [] aPose = returnM aPose"
| "generateOnePose_sensors L params (sensorName # rest) aPose =
     bindM (getRandom L (p_sensor_yaw params)) (\<lambda>amountSensor_yaw.
     bindM (getRandom L (p_sensor_pitch params)) (\<lambda>amountSensor_pitch.
     bindM (getRandom L (p_sensor_roll params)) (\<lambda>amountSensor_roll.
       generateOnePose_sensors L params rest
         (aPose\<lparr>sensor_yaw := map_insert (sensor_yaw aPose) sensorName amountSensor_yaw,
                sensor_pitch := map_insert (sensor_pitch aPose) sensorName amountSensor_pitch,
                sensor_roll := map_insert (sensor_roll aPose) sensorName amountSensor_roll\<rparr>))))"

text \<open>\<^verbatim>\<open>generateOnePose\<close>, lines 146 to 168; \<open>sensorNames\<close> is the member
  \<^verbatim>\<open>m_sensorNames\<close>.\<close>

definition generateOnePose ::
  "('g, 'd) stdlib \<Rightarrow> string list \<Rightarrow> perturbParams \<Rightarrow> (Pose, 'g) M" where
  "generateOnePose L sensorNames params =
     bindM (getRandom L (p_shift params)) (\<lambda>s.
     bindM (getRandom L (p_rotation params)) (\<lambda>r.
     bindM (getRandom L (p_forward params)) (\<lambda>f.
     bindM (generateOnePose_sensors L params sensorNames
              (empty_Pose\<lparr>shift := s, rotation := r, forward := f\<rparr>)) (\<lambda>aPose.
       returnM (aPose\<lparr>flip := False\<rparr>)))))"

text \<open>\<^verbatim>\<open>flipPose\<close>, lines 170 to 179.\<close>

definition flipPose :: "Pose \<Rightarrow> Pose" where
  "flipPose in_pose =
     in_pose\<lparr>flip := True, shift := shift in_pose * (- 1), rotation := rotation in_pose * (- 1)\<rparr>"

section \<open>The frame pose planner\<close>

text \<open>
  The \<^verbatim>\<open>for\<close> loop of \<^verbatim>\<open>generatePoses4oneFrame\<close>, lines 122 to 135, for the matched
  rule's \<open>params\<close>. The counter \<open>i\<close> stays below \<open>useCount\<close>, a \<^verbatim>\<open>uint32_t\<close>, so
  \<^verbatim>\<open>++i\<close> never wraps and the counter is a natural number; \<^verbatim>\<open>i % 2\<close> is true when
  \<open>i\<close> is odd.
\<close>

function generatePoses4oneFrame_loop ::
  "('g, 'd) stdlib \<Rightarrow> string list \<Rightarrow> perturbParams \<Rightarrow> 32 word \<Rightarrow> nat \<Rightarrow> nat \<Rightarrow> Pose list
     \<Rightarrow> (Pose list, 'g) M" where
  "generatePoses4oneFrame_loop L sensorNames params index useCount i vecPoses =
     (if i < useCount
      then bindM (generateOnePose L sensorNames params) (\<lambda>onePose.
             generatePoses4oneFrame_loop L sensorNames params index useCount (Suc i)
               (vecPoses @ [if p_flip params \<and> odd i
                            then flipPose (onePose\<lparr>srcFrame := index\<rparr>)
                            else onePose\<lparr>srcFrame := index\<rparr>]))
      else returnM vecPoses)"
  by pat_completeness auto
termination
  by (relation "measure (\<lambda>(L, sensorNames, params, index, useCount, i, vecPoses). useCount - i)")
     auto

text \<open>
  The \<^verbatim>\<open>throw\<close> of line 140. Its operand is
  \<^verbatim>\<open>std::runtime_error("no perturbation rule found for frame " + index)\<close> with a
  \<^verbatim>\<open>uint32_t index\<close>: the sum is the address of the literal moved by \<open>index\<close>
  characters, not a longer string. The literal is an array of its 37 characters and a
  terminating zero. For an index up to 37 the address is that of a suffix of the
  literal, and the exception is thrown with the suffix as message (the message is not
  modelled). For a larger index the constructor reads from the end of the array or
  beyond it, and the behaviour is undefined.
\<close>

definition no_rule_literal :: string where
  "no_rule_literal = ''no perturbation rule found for frame ''"

definition throw_no_rule :: "32 word \<Rightarrow> ('a, 'g) M" where
  "throw_no_rule index =
     (if unat index \<le> length no_rule_literal then throwM NoMatchingRule
      else throwM UndefinedBehaviour)"

text \<open>
  \<^verbatim>\<open>generatePoses4oneFrame\<close>, lines 102 to 144; \<open>rules\<close> is the member
  \<^verbatim>\<open>m_perturbRules\<close>, and \<^verbatim>\<open>std::find_if\<close> is \<^const>\<open>find\<close>.
\<close>

definition generatePoses4oneFrame ::
  "('g, 'd) stdlib \<Rightarrow> 't projMetaTraceApi \<Rightarrow> ((string \<times> string) list \<times> perturbParams) list
     \<Rightarrow> string list \<Rightarrow> 32 word \<Rightarrow> 32 word \<Rightarrow> 't \<Rightarrow> (Pose list, 'g) M" where
  "generatePoses4oneFrame L T rules sensorNames useCount index trace =
     (if useCount = 0 then returnM []
      else bindM
        (case find (\<lambda>rule. doLabelsMatch T trace index (fst rule)) rules of
           Some first_rule \<Rightarrow>
             generatePoses4oneFrame_loop L sensorNames (snd first_rule) index (unat useCount) 0 []
         | None \<Rightarrow> returnM [])
        (\<lambda>vecPoses. if length vecPoses = 0 then throw_no_rule index else returnM vecPoses))"

text \<open>\<^verbatim>\<open>std::vector::at\<close>: the element, or \<^verbatim>\<open>std::out_of_range\<close>.\<close>

definition vector_at :: "'a list \<Rightarrow> nat \<Rightarrow> ('a, 'g) M" where
  "vector_at xs i = (if i < length xs then returnM (xs ! i) else throwM OutOfRange)"

text \<open>
  The \<^verbatim>\<open>for\<close> loop of \<^verbatim>\<open>generatePoses4vecFrames\<close>, lines 61 to 65. The counter is a
  \<^verbatim>\<open>uint32_t\<close> below \<open>numFrames\<close>, itself a \<^verbatim>\<open>uint32_t\<close>, so it never wraps.
\<close>

function generatePoses4vecFrames_loop ::
  "('g, 'd) stdlib \<Rightarrow> 't projMetaTraceApi \<Rightarrow> ((string \<times> string) list \<times> perturbParams) list
     \<Rightarrow> string list \<Rightarrow> 32 word list \<Rightarrow> 't \<Rightarrow> nat \<Rightarrow> nat \<Rightarrow> Pose list list
     \<Rightarrow> (Pose list list, 'g) M" where
  "generatePoses4vecFrames_loop L T rules sensorNames vecUseCounts trace numFrames i vecVecPoses =
     (if i < numFrames
      then bindM (vector_at vecUseCounts i) (\<lambda>useCount.
           bindM (generatePoses4oneFrame L T rules sensorNames useCount (of_nat i) trace) (\<lambda>Poses.
             generatePoses4vecFrames_loop L T rules sensorNames vecUseCounts trace numFrames
               (Suc i) (vecVecPoses @ [Poses])))
      else returnM vecVecPoses)"
  by pat_completeness auto
termination
  by (relation "measure (\<lambda>(L, T, rules, sensorNames, vecUseCounts, trace, numFrames, i, vecVecPoses).
        numFrames - i)") auto

text \<open>
  \<^verbatim>\<open>generatePoses4vecFrames\<close>, lines 44 to 71. \<^verbatim>\<open>uint32_t numFrames = vecUseCounts.size()\<close>
  keeps the low 32 bits of the size.
\<close>

definition generatePoses4vecFrames ::
  "('g, 'd) stdlib \<Rightarrow> 't projMetaTraceApi \<Rightarrow> ((string \<times> string) list \<times> perturbParams) list
     \<Rightarrow> string list \<Rightarrow> 32 word list \<Rightarrow> string \<Rightarrow> (Pose list list, 'g) M" where
  "generatePoses4vecFrames L T rules sensorNames vecUseCounts labelsFileName =
     (let numFrames = length vecUseCounts mod 2 ^ 32
      in case projMetaTrace T labelsFileName of
           None \<Rightarrow> throwM TraceLoadError
         | Some trace \<Rightarrow>
             if getNumDatapoints T trace \<noteq> numFrames then throwM FrameCountMismatch
             else bindM
               (generatePoses4vecFrames_loop L T rules sensorNames vecUseCounts trace numFrames 0 [])
               (\<lambda>vecVecPoses.
                  if length vecVecPoses \<noteq> numFrames then throwM InternalInconsistency
                  else returnM vecVecPoses))"

section \<open>The shuffle stage\<close>

text \<open>
  The \<^verbatim>\<open>while\<close> loop of \<^verbatim>\<open>generateShuffledPoses\<close>, lines 95 to 98: it shuffles again
  while the first pose is flipped, and nothing bounds the number of rounds.
  \<^verbatim>\<open>flattenedPoses.at(0)\<close> throws on an empty vector.
\<close>

partial_function (option) generateShuffledPoses_loop ::
  "('g, 'd) stdlib \<Rightarrow> Pose list \<Rightarrow> 'g \<Rightarrow> ((error + Pose list) \<times> 'g) option" where
  "generateShuffledPoses_loop L flattenedPoses g =
     (case flattenedPoses of
        [] \<Rightarrow> Some (Inl OutOfRange, g)
      | first # others \<Rightarrow>
          if flip first
          then (case std_shuffle L flattenedPoses g of
                  (flattenedPoses', g') \<Rightarrow> generateShuffledPoses_loop L flattenedPoses' g')
          else Some (Inr flattenedPoses, g))"

text \<open>\<^verbatim>\<open>generateShuffledPoses\<close>, lines 73 to 100.\<close>

definition generateShuffledPoses ::
  "('g, 'd) stdlib \<Rightarrow> 't projMetaTraceApi \<Rightarrow> ((string \<times> string) list \<times> perturbParams) list
     \<Rightarrow> string list \<Rightarrow> 32 word list \<Rightarrow> string \<Rightarrow> (Pose list, 'g) M" where
  "generateShuffledPoses L T rules sensorNames vecUseCounts labelsFileName =
     bindM (generatePoses4vecFrames L T rules sensorNames vecUseCounts labelsFileName)
       (\<lambda>unshuffledPoses.
          let flattenedPoses = concat unshuffledPoses
          in if length flattenedPoses = 0 then returnM []
             else (\<lambda>g. case std_shuffle L flattenedPoses g of
                          (flattenedPoses', g') \<Rightarrow> generateShuffledPoses_loop L flattenedPoses' g'))"

section \<open>The rule table and the generator object\<close>





declare generatePoses4oneFrame_loop.simps [simp del]
declare generatePoses4vecFrames_loop.simps [simp del]

section \<open>A scripted environment for running the model\<close>

text \<open>
  To run the model on concrete inputs, the parameters are instantiated with stand-ins.
  The scripted engine's state is the list of the numbers its next draws produce: a
  call of the normal distribution returns \<open>mean + stddev * u\<close> for the next number
  \<open>u\<close>, a call of the uniform distribution \<open>a + (b - a) * u\<close>, and a shuffle rotates
  the vector by \<open>\<lfloor>u\<rfloor>\<close> places; an exhausted list produces zeros.
\<close>

definition scripted_next :: "real list \<Rightarrow> real \<times> real list" where
  "scripted_next g = (case g of [] \<Rightarrow> (0, []) | u # g' \<Rightarrow> (u, g'))"

definition scripted_stdlib :: "(real list, real \<times> real) stdlib" where
  "scripted_stdlib =
     \<lparr>std_mt19937_64 = (\<lambda>seed. [real (unat seed mod 4) / 4, 1 / 2, 0, 1, 1 / 2, 1 / 4]),
      std_normal_distribution = (\<lambda>mean stddev. (mean, stddev)),
      std_normal_call = (\<lambda>d g. case scripted_next g of (u, g') \<Rightarrow> (fst d + snd d * u, d, g')),
      std_uniform_real_distribution =
        (\<lambda>a b g. case scripted_next g of (u, g') \<Rightarrow> (a + (b - a) * u, g')),
      std_shuffle = (\<lambda>xs g. case scripted_next g of (u, g') \<Rightarrow> (rotate (nat \<lfloor>u\<rfloor>) xs, g'))\<rparr>"


text \<open>
  A label source that keeps a trace as the list of its frames' road types:
  \<open>labels.csv\<close> has the three frames of the spec's example (two on a highway, one on
  a local road), \<open>empty.csv\<close> has none. \<open>longTrace\<close> has 39 frames, the last on a road
  of a type that no rule of the example names.
\<close>

definition exampleTrace :: "string list" where
  "exampleTrace = [''highway'', ''highway'', ''local'']"

definition longTrace :: "string list" where
  "longTrace = replicate 38 ''highway'' @ [''rural'']"

definition scripted_traces :: "string list projMetaTraceApi" where
  "scripted_traces =
     \<lparr>projMetaTrace = (\<lambda>file.
        if file = ''labels.csv'' then Some exampleTrace
        else if file = ''empty.csv'' then Some []
        else None),
      getNumDatapoints = length,
      doLabelsMatch = (\<lambda>trace index conds.
        unat index < length trace \<and>
        list_all (\<lambda>c. fst c = ''road_type'' \<and> snd c = trace ! unat index) conds)\<rparr>"

text \<open>Parameter sets: a distribution that always yields 0 (as \<^verbatim>\<open>sensor_roll\<close> of the
  test's \<^verbatim>\<open>perturbParams1\<close>), a uniform one, and two rules that differ in \<open>p_flip\<close>;
  the configuration and the rule table of the spec's example.\<close>

definition zeroParams :: randParams where
  "zeroParams = \<lparr>distribution = ''gaussian'', rp_max = 0, stdDev = 0\<rparr>"

definition halfParams :: randParams where
  "halfParams = \<lparr>distribution = ''uniform'', rp_max = 1 / 2, stdDev = 1\<rparr>"

definition flipRule :: perturbParams where
  "flipRule = \<lparr>p_shift = halfParams, p_rotation = zeroParams, p_forward = zeroParams,
     p_sensor_yaw = halfParams, p_sensor_pitch = zeroParams, p_sensor_roll = zeroParams,
     p_flip = True\<rparr>"

definition plainRule :: perturbParams where
  "plainRule = flipRule\<lparr>p_flip := False\<rparr>"


definition exampleTable :: "((string \<times> string) list \<times> perturbParams) list" where
  "exampleTable =
     [([(''road_type'', ''highway'')], flipRule), ([(''road_type'', ''local'')], plainRule)]"



text \<open>The poses the scripted runs produce: without sensors, and with the sensor
  \<open>center\<close>.\<close>

definition unflipped :: "real \<Rightarrow> 32 word \<Rightarrow> Pose" where
  "unflipped s i = \<lparr>shift = s, rotation = 0, forward = 0,
     sensor_yaw = Map.empty, sensor_pitch = Map.empty, sensor_roll = Map.empty,
     flip = False, srcFrame = i\<rparr>"



text \<open>The \<^verbatim>\<open>double\<close> nearest to 0.8, the bound of \<^verbatim>\<open>forward\<close> in the test's
  \<^verbatim>\<open>perturbParams1\<close>, and the test's parameters for that field.\<close>

definition double_0_8 :: real where
  "double_0_8 = 3602879701896397 / 4503599627370496"

definition forwardParams :: randParams where
  "forwardParams = \<lparr>distribution = ''gaussian'', rp_max = double_0_8, stdDev = 1 / 2\<rparr>"

section \<open>Facts about the effects\<close>

lemma returnM_apply: "returnM x g = Some (Inr x, g)"
  by (simp add: returnM_def)

lemma throwM_apply: "throwM e g = Some (Inl e, g)"
  by (simp add: throwM_def)

lemma throw_no_rule_apply:
  "throw_no_rule index g =
     Some (Inl (if unat index \<le> 37 then NoMatchingRule else UndefinedBehaviour), g)"
  by (simp add: throw_no_rule_def no_rule_literal_def throwM_def)

lemma bindM_Inr:
  "bindM m f g = Some (Inr y, g'') \<longleftrightarrow>
     (\<exists>x g'. m g = Some (Inr x, g') \<and> f x g' = Some (Inr y, g''))"
  by (auto simp: bindM_def split: option.splits sum.splits prod.splits)

lemma bindM_Inl:
  "bindM m f g = Some (Inl e, g'') \<longleftrightarrow>
     (m g = Some (Inl e, g'') \<or> (\<exists>x g'. m g = Some (Inr x, g') \<and> f x g' = Some (Inl e, g'')))"
  by (auto simp: bindM_def split: option.splits sum.splits prod.splits)

lemma bindM_step: "m g = Some (Inr x, g') \<Longrightarrow> bindM m f g = f x g'"
  by (simp add: bindM_def)




section \<open>Facts about the conversion to float\<close>

text \<open>The scan finds the binary exponent; with it the conversion is a closed formula,
  which evaluates fast on a given number.\<close>

lemma pow2_powi: "pow2 e = 2 powi e"
  by (simp add: pow2_def power_int_def inverse_eq_divide power_one_over)

lemma pow2_less_iff: "pow2 a < pow2 b \<longleftrightarrow> a < b"
proof
  assume "pow2 a < pow2 b"
  show "a < b"
  proof (rule ccontr)
    assume "\<not> a < b"
    then have "pow2 b \<le> pow2 a"
      unfolding pow2_powi by (intro power_int_increasing) simp_all
    with \<open>pow2 a < pow2 b\<close> show False by simp
  qed
next
  assume "a < b"
  then show "pow2 a < pow2 b"
    unfolding pow2_powi by (intro power_int_strict_increasing) simp_all
qed

lemma pow2_le_iff: "pow2 a \<le> pow2 b \<longleftrightarrow> a \<le> b"
  using pow2_less_iff [of b a] by (simp add: not_less [symmetric])

lemma float_exp_scan_normal:
  "pow2 e \<le> a \<Longrightarrow> a < pow2 (e + 1) \<Longrightarrow> - 125 \<le> e \<Longrightarrow> e \<le> int k - 126 \<Longrightarrow>
     float_exp_scan k a = e"
proof (induction k)
  case 0
  then show ?case by simp
next
  case (Suc k)
  show ?case
  proof (cases "pow2 (int k - 125) \<le> a")
    case True
    with Suc.prems(2) have "pow2 (int k - 125) < pow2 (e + 1)" by simp
    then have "int k - 125 < e + 1" by (simp only: pow2_less_iff)
    with Suc.prems(4) True show ?thesis by simp
  next
    case False
    with Suc.prems(1) have "e \<noteq> int k - 125" by auto
    with Suc.prems(4) have "e \<le> int k - 126" by simp
    with Suc.IH Suc.prems False show ?thesis by simp
  qed
qed

lemma float_exp_scan_small: "a < pow2 (- 125) \<Longrightarrow> float_exp_scan k a = - 126"
proof (induction k)
  case 0
  then show ?case by simp
next
  case (Suc k)
  have "pow2 (- 125) \<le> pow2 (int k - 125)" by (simp add: pow2_le_iff)
  with Suc show ?case by simp
qed

lemma double_to_float_normal:
  assumes "pow2 e \<le> \<bar>x\<bar>" "\<bar>x\<bar> < pow2 (e + 1)" "- 125 \<le> e" "e \<le> 127"
  shows "double_to_float x =
           sgn x * (of_int (round_half_even (\<bar>x\<bar> / pow2 (e - 23))) * pow2 (e - 23))"
  using float_exp_scan_normal [OF assms(1,2,3), of 253] assms(4)
  by (simp add: double_to_float_def float_round_abs_def)

lemma double_to_float_exact:
  "double_to_float 0 = 0"
  "double_to_float (1 / 4) = 1 / 4"
  "double_to_float (1 / 2) = 1 / 2"
  "double_to_float (- (1 / 2)) = - (1 / 2)"
proof -
  show "double_to_float 0 = 0" by (simp add: double_to_float_def)
  show "double_to_float (1 / 4) = 1 / 4"
    by (subst double_to_float_normal [where e = "- 2"])
       (simp_all add: pow2_def round_half_even_def)
  show "double_to_float (1 / 2) = 1 / 2"
    by (subst double_to_float_normal [where e = "- 1"])
       (simp_all add: pow2_def round_half_even_def)
  show "double_to_float (- (1 / 2)) = - (1 / 2)"
    by (subst double_to_float_normal [where e = "- 1"])
       (simp_all add: pow2_def round_half_even_def)
qed

lemma double_to_float_0_8: "double_to_float double_0_8 = 13421773 / 16777216"
  by (subst double_to_float_normal [where e = "- 1"])
     (simp_all add: double_0_8_def pow2_def round_half_even_def)


text \<open>The conversion is monotone in the magnitude, so it keeps a value within a
  bound that is itself a \<^verbatim>\<open>float\<close>, hence at most \<open>float_max\<close>; there no value
  overflows.\<close>

lemma pow2_add: "pow2 (a + b) = pow2 a * pow2 b"
  by (simp add: pow2_powi power_int_add)

lemma pow2_pos: "0 < pow2 e"
  by (simp add: pow2_powi)

lemma pow2_ulps:
  "pow2 (e + 1) = 2 ^ 24 * pow2 (e - 23)"
  "pow2 e = 2 ^ 23 * pow2 (e - 23)"
proof -
  have "e + 1 = 24 + (e - 23)" by simp
  then have "pow2 (e + 1) = pow2 24 * pow2 (e - 23)" by (simp only: pow2_add)
  then show "pow2 (e + 1) = 2 ^ 24 * pow2 (e - 23)" by (simp add: pow2_def)
  have "e = 23 + (e - 23)" by simp
  then have "pow2 e = pow2 23 * pow2 (e - 23)" by (metis pow2_add)
  then show "pow2 e = 2 ^ 23 * pow2 (e - 23)" by (simp add: pow2_def)
qed

lemma float_exp_scan_spec:
  "- 126 \<le> float_exp_scan k a \<and> float_exp_scan k a \<le> int k - 126 \<and>
   (- 126 < float_exp_scan k a \<longrightarrow> pow2 (float_exp_scan k a) \<le> a) \<and>
   (float_exp_scan k a < int k - 126 \<longrightarrow> a < pow2 (float_exp_scan k a + 1))"
proof (induction k)
  case 0
  then show ?case by simp
next
  case (Suc k)
  show ?case
  proof (cases "pow2 (int k - 125) \<le> a")
    case True
    then show ?thesis by simp
  next
    case False
    have "a < pow2 (float_exp_scan k a + 1)"
    proof (cases "float_exp_scan k a < int k - 126")
      case True
      with Suc show ?thesis by simp
    next
      case False
      with Suc have "float_exp_scan k a = int k - 126" by linarith
      then have "float_exp_scan k a + 1 = int k - 125" by simp
      then show ?thesis
        using \<open>\<not> pow2 (int k - 125) \<le> a\<close> by (simp only: not_le)
    qed
    with Suc False show ?thesis by simp
  qed
qed

lemma round_half_even_mono: "q \<le> q' \<Longrightarrow> round_half_even q \<le> round_half_even q'"
proof -
  assume le: "q \<le> q'"
  then have fl: "\<lfloor>q\<rfloor> \<le> \<lfloor>q'\<rfloor>" by (rule floor_mono)
  show ?thesis
  proof (cases "\<lfloor>q\<rfloor> = \<lfloor>q'\<rfloor>")
    case True
    with le have "q - of_int \<lfloor>q\<rfloor> \<le> q' - of_int \<lfloor>q'\<rfloor>" by simp
    with True show ?thesis
      by (auto simp: round_half_even_def Let_def)
  next
    case False
    with fl have "\<lfloor>q\<rfloor> + 1 \<le> \<lfloor>q'\<rfloor>" by simp
    moreover have "round_half_even q \<le> \<lfloor>q\<rfloor> + 1"
      by (simp add: round_half_even_def Let_def)
    moreover have "\<lfloor>q'\<rfloor> \<le> round_half_even q'"
      by (simp add: round_half_even_def Let_def)
    ultimately show ?thesis by linarith
  qed
qed

lemma round_half_even_of_int: "round_half_even (of_int n) = n"
  by (simp add: round_half_even_def)

lemma double_to_float_abs: "\<bar>double_to_float x\<bar> = float_round_abs \<bar>x\<bar>"
proof -
  have "0 \<le> round_half_even (\<bar>x\<bar> / pow2 (float_exp_scan 253 \<bar>x\<bar> - 23))"
    using round_half_even_mono [of 0 "\<bar>x\<bar> / pow2 (float_exp_scan 253 \<bar>x\<bar> - 23)"]
      pow2_pos [of "float_exp_scan 253 \<bar>x\<bar> - 23"] round_half_even_of_int [of 0]
    by simp
  then have nonneg: "0 \<le> float_round_abs \<bar>x\<bar>"
    using pow2_pos [of "float_exp_scan 253 \<bar>x\<bar> - 23"] by (simp add: float_round_abs_def)
  have zero: "float_round_abs 0 = 0"
    using round_half_even_of_int [of 0] by (simp add: float_round_abs_def)
  have "double_to_float x = sgn x * float_round_abs \<bar>x\<bar>"
    by (simp add: double_to_float_def)
  with nonneg zero show ?thesis
    by (cases "x = 0") (simp_all add: abs_mult)
qed

lemma float_round_abs_mono:
  assumes "0 \<le> a" "a \<le> b"
  shows "float_round_abs a \<le> float_round_abs b"
proof -
  let ?ea = "float_exp_scan 253 a" and ?eb = "float_exp_scan 253 b"
  note sa = float_exp_scan_spec [of 253 a] and sb = float_exp_scan_spec [of 253 b]
  have ee: "?ea \<le> ?eb"
  proof (rule ccontr)
    assume "\<not> ?ea \<le> ?eb"
    then have lt: "?eb < ?ea" by simp
    with sa sb have "b < pow2 (?eb + 1)" "pow2 ?ea \<le> a" by simp_all
    moreover from lt have "pow2 (?eb + 1) \<le> pow2 ?ea" by (simp add: pow2_le_iff)
    ultimately show False using assms(2) by simp
  qed
  show ?thesis
  proof (cases "?ea = ?eb")
    case True
    have "a / pow2 (?eb - 23) \<le> b / pow2 (?eb - 23)"
      using assms(2) pow2_pos [of "?eb - 23"] by (simp add: divide_right_mono)
    then have "round_half_even (a / pow2 (?eb - 23)) \<le> round_half_even (b / pow2 (?eb - 23))"
      by (rule round_half_even_mono)
    then show ?thesis
      using True pow2_pos [of "?eb - 23"]
      by (simp add: float_round_abs_def mult_right_mono)
  next
    case False
    with ee have lt: "?ea < ?eb" by simp
    with sa sb have a_hi: "a < pow2 (?ea + 1)" and b_lo: "pow2 ?eb \<le> b" by simp_all
    have "a / pow2 (?ea - 23) \<le> of_int (2 ^ 24)"
    proof -
      from a_hi have "a \<le> 2 ^ 24 * pow2 (?ea - 23)"
        unfolding pow2_ulps(1) [of ?ea] by simp
      then show ?thesis
        using pow2_pos [of "?ea - 23"] by (simp add: pos_divide_le_eq)
    qed
    then have "round_half_even (a / pow2 (?ea - 23)) \<le> 2 ^ 24"
      using round_half_even_mono round_half_even_of_int [of "2 ^ 24"] by metis
    then have "float_round_abs a \<le> 2 ^ 24 * pow2 (?ea - 23)"
      using pow2_pos [of "?ea - 23"]
      unfolding float_round_abs_def
      by (metis mult_right_mono of_int_le_iff of_int_numeral of_int_power less_imp_le)
    also have "\<dots> = pow2 (?ea + 1)"
      by (simp only: pow2_ulps(1) [of ?ea])
    also have "\<dots> \<le> pow2 ?eb"
      using lt by (simp add: pow2_le_iff)
    also have "\<dots> \<le> float_round_abs b"
    proof -
      have "pow2 ?eb = 2 ^ 23 * pow2 (?eb - 23)"
        by (rule pow2_ulps(2))
      moreover from b_lo have "2 ^ 23 * pow2 (?eb - 23) \<le> b"
        unfolding pow2_ulps(2) [of ?eb, symmetric] .
      then have "of_int (2 ^ 23) \<le> b / pow2 (?eb - 23)"
        using pow2_pos [of "?eb - 23"] by (simp add: pos_le_divide_eq)
      then have "2 ^ 23 \<le> round_half_even (b / pow2 (?eb - 23))"
        using round_half_even_mono round_half_even_of_int [of "2 ^ 23"] by metis
      then have "2 ^ 23 * pow2 (?eb - 23) \<le> float_round_abs b"
        using pow2_pos [of "?eb - 23"]
        unfolding float_round_abs_def
        by (metis mult_right_mono of_int_le_iff of_int_numeral of_int_power less_imp_le)
      ultimately show ?thesis by simp
    qed
    finally show ?thesis .
  qed
qed

lemma double_to_float_bounded:
  assumes "\<bar>x\<bar> \<le> m" and "double_to_float m = m" and "m \<le> float_max"
  shows "\<bar>double_to_float x\<bar> \<le> m"
proof -
  from assms(1) have "0 \<le> m" by simp
  then have "float_round_abs m = m"
    using double_to_float_abs [of m] assms(2) by simp
  moreover have "float_round_abs \<bar>x\<bar> \<le> float_round_abs m"
    using assms(1) \<open>0 \<le> m\<close> by (intro float_round_abs_mono) simp_all
  ultimately show ?thesis by (simp add: double_to_float_abs)
qed


section \<open>Facts about the sampler\<close>

text \<open>
  When the rejection loop ends, the \<^verbatim>\<open>double\<close> it leaves is within the bound; the
  \<^verbatim>\<open>float\<close> returned is within the bound when the bound is a \<^verbatim>\<open>float\<close> (for the
  uniform distribution, provided the library's variate is within the interval it was
  asked for). For the bound 0.8, which is none, a draw of 0.8 is rounded above it.
\<close>

lemma genGaussianRV_loop_in_range:
  assumes "genGaussianRV_loop L params d x g = Some r"
  shows "- rp_max params \<le> fst r \<and> fst r \<le> rp_max params"
  by (rule genGaussianRV_loop.raw_induct
        [where P = "\<lambda>L params d x g r. - rp_max params \<le> fst r \<and> fst r \<le> rp_max params",
         OF _ assms])
     (auto split: if_splits prod.splits)

lemma getRandom_gaussian_double:
  assumes "getRandom L rParams g = Some (Inr v, g')"
    and "distribution rParams = ''gaussian'' \<or> distribution rParams = ''normal''"
  shows "\<exists>numGauss. v = double_to_float numGauss \<and>
           - rp_max rParams \<le> numGauss \<and> numGauss \<le> rp_max rParams"
proof -
  from assms obtain x d g1 numGauss where
    "genGaussianRV_loop L rParams d x g1 = Some (numGauss, g')" "v = double_to_float numGauss"
    by (auto simp: getRandom_def genGaussianRV_def split: prod.splits option.splits)
  with genGaussianRV_loop_in_range [of L rParams d x g1 "(numGauss, g')"] show ?thesis
    by auto
qed

lemma getRandom_gaussian_bounded:
  assumes "getRandom L rParams g = Some (Inr v, g')"
    and "distribution rParams = ''gaussian'' \<or> distribution rParams = ''normal''"
    and "double_to_float (rp_max rParams) = rp_max rParams"
    and "rp_max rParams \<le> float_max"
  shows "\<bar>v\<bar> \<le> rp_max rParams"
proof -
  from getRandom_gaussian_double [OF assms(1,2)] obtain numGauss where
    "v = double_to_float numGauss" "\<bar>numGauss\<bar> \<le> rp_max rParams"
    by (auto simp: abs_le_iff)
  with assms(3,4) show ?thesis by (simp add: double_to_float_bounded)
qed

lemma getRandom_uniform_bounded:
  assumes "getRandom L rParams g = Some (Inr v, g')"
    and "distribution rParams = ''uniform''"
    and "double_to_float (rp_max rParams) = rp_max rParams"
    and "rp_max rParams \<le> float_max"
    and "\<bar>fst (std_uniform_real_distribution L (- rp_max rParams) (rp_max rParams) g)\<bar>
           \<le> rp_max rParams"
  shows "\<bar>v\<bar> \<le> rp_max rParams"
proof -
  from assms(1,2) have
    "v = double_to_float (fst (std_uniform_real_distribution L (- rp_max rParams) (rp_max rParams) g))"
    by (auto simp: getRandom_def genUniformRV_def split: prod.splits)
  with assms(3,4,5) show ?thesis by (simp add: double_to_float_bounded)
qed

lemma getRandom_Inl:
  "getRandom L rParams g = Some (Inl e, g') \<Longrightarrow> e = UnknownDistribution \<and> g' = g"
  by (auto simp: getRandom_def genGaussianRV_def genUniformRV_def throwM_def
           split: if_splits prod.splits option.splits)

lemma getRandom_rounds_above_max:
  assumes "std_normal_call L (std_normal_distribution L 0 (stdDev forwardParams)) g
             = (double_0_8, d, g')"
  shows "getRandom L forwardParams g = Some (Inr (13421773 / 16777216), g')"
proof -
  have "genGaussianRV_loop L forwardParams d double_0_8 g' = Some (double_0_8, g')"
    by (subst genGaussianRV_loop.simps) (simp add: forwardParams_def double_0_8_def)
  with assms have "genGaussianRV L forwardParams g = Some (Inr (double_to_float double_0_8), g')"
    by (simp add: genGaussianRV_def)
  then show ?thesis
    by (simp add: getRandom_def forwardParams_def double_to_float_0_8)
qed


section \<open>Facts about the synthesizer\<close>

lemma generateOnePose_sensors_Inl:
  "generateOnePose_sensors L params names aPose g = Some (Inl e, g') \<Longrightarrow> e = UnknownDistribution"
proof (induction names arbitrary: aPose g)
  case Nil
  then show ?case by (simp add: returnM_def)
next
  case (Cons n names)
  then show ?case
    by (auto simp: bindM_Inl dest: getRandom_Inl)
qed

lemma generateOnePose_sensors_p_flip:
  "generateOnePose_sensors L (params\<lparr>p_flip := b\<rparr>) names aPose =
   generateOnePose_sensors L params names aPose"
  by (induction names arbitrary: aPose) simp_all

lemma generateOnePose_p_flip:
  "generateOnePose L sensorNames (params\<lparr>p_flip := b\<rparr>) = generateOnePose L sensorNames params"
  by (simp add: generateOnePose_def generateOnePose_sensors_p_flip)

lemma generateOnePose_Inl:
  "generateOnePose L sensorNames params g = Some (Inl e, g') \<Longrightarrow> e = UnknownDistribution"
  by (auto simp: generateOnePose_def bindM_Inl returnM_def
           dest: getRandom_Inl generateOnePose_sensors_Inl)

lemma generateOnePose_unflipped:
  "generateOnePose L sensorNames params g = Some (Inr onePose, g') \<Longrightarrow> \<not> flip onePose"
  by (auto simp: generateOnePose_def bindM_Inr returnM_def)












section \<open>Facts about the planner\<close>

text \<open>
  The loop over one frame: its result is the list of the poses it synthesized, each
  unflipped and stamped with the frame, with \<^const>\<open>flipPose\<close> applied at the odd
  positions when the rule flips. The synthesized poses are what the same loop
  returns, from the same engine state, for the rule with \<open>p_flip\<close> switched off.
\<close>

lemma generatePoses4oneFrame_loop_Inr:
  "generatePoses4oneFrame_loop L sensorNames params index useCount i vecPoses g = Some (Inr ps, g')
   \<Longrightarrow> \<exists>qs. generatePoses4oneFrame_loop L sensorNames (params\<lparr>p_flip := False\<rparr>) index useCount i
               vecPoses0 g = Some (Inr (vecPoses0 @ qs), g') \<and>
            length qs = useCount - i \<and>
            (\<forall>q \<in> set qs. \<not> flip q \<and> srcFrame q = index) \<and>
            ps = vecPoses @ map (\<lambda>(k, q). if p_flip params \<and> odd k then flipPose q else q)
                   (zip [i..<useCount] qs)"
proof (induction L sensorNames params index useCount i vecPoses arbitrary: vecPoses0 g
       rule: generatePoses4oneFrame_loop.induct)
  case (1 L sensorNames params index useCount i vecPoses)
  show ?case
  proof (cases "i < useCount")
    case False
    with "1.prems" show ?thesis
      by (simp add: generatePoses4oneFrame_loop.simps returnM_def)
  next
    case True
    let ?elem = "\<lambda>x. if p_flip params \<and> odd i then flipPose (x\<lparr>srcFrame := index\<rparr>)
                       else x\<lparr>srcFrame := index\<rparr>"
    from "1.prems" True obtain onePose g1 where
      one: "generateOnePose L sensorNames params g = Some (Inr onePose, g1)" and
      rest: "generatePoses4oneFrame_loop L sensorNames params index useCount (Suc i)
               (vecPoses @ [?elem onePose]) g1 = Some (Inr ps, g')"
      by (subst (asm) generatePoses4oneFrame_loop.simps) (auto simp: bindM_Inr)
    let ?q = "onePose\<lparr>srcFrame := index\<rparr>"
    from "1.IH" [OF True rest, of "vecPoses0 @ [?q]"] obtain qs where
      qs: "generatePoses4oneFrame_loop L sensorNames (params\<lparr>p_flip := False\<rparr>) index useCount
             (Suc i) (vecPoses0 @ [?q]) g1 = Some (Inr ((vecPoses0 @ [?q]) @ qs), g')"
        "length qs = useCount - Suc i"
        "\<forall>q \<in> set qs. \<not> flip q \<and> srcFrame q = index"
        "ps = (vecPoses @ [?elem onePose]) @
              map (\<lambda>(k, q). if p_flip params \<and> odd k then flipPose q else q)
                (zip [Suc i..<useCount] qs)"
      by blast
    have "generatePoses4oneFrame_loop L sensorNames (params\<lparr>p_flip := False\<rparr>) index useCount i
            vecPoses0 g = Some (Inr (vecPoses0 @ ?q # qs), g')"
      using True one qs(1)
      by (subst generatePoses4oneFrame_loop.simps)
         (simp add: generateOnePose_p_flip bindM_step)
    moreover have "length (?q # qs) = useCount - i"
      using True qs(2) by simp
    moreover have "\<forall>q \<in> set (?q # qs). \<not> flip q \<and> srcFrame q = index"
      using qs(3) generateOnePose_unflipped [OF one] by simp
    moreover have "ps = vecPoses @ map (\<lambda>(k, q). if p_flip params \<and> odd k then flipPose q else q)
                          (zip [i..<useCount] (?q # qs))"
      using True qs(4) by (simp add: upt_conv_Cons)
    ultimately show ?thesis by blast
  qed
qed


lemma generatePoses4oneFrame_loop_Inl:
  "generatePoses4oneFrame_loop L sensorNames params index useCount i vecPoses g = Some (Inl e, g')
   \<Longrightarrow> e = UnknownDistribution"
proof (induction L sensorNames params index useCount i vecPoses arbitrary: g
       rule: generatePoses4oneFrame_loop.induct)
  case (1 L sensorNames params index useCount i vecPoses)
  show ?case
  proof (cases "i < useCount")
    case False
    with "1.prems" show ?thesis
      by (simp add: generatePoses4oneFrame_loop.simps returnM_def)
  next
    case True
    from "1.prems" True show ?thesis
      by (subst (asm) generatePoses4oneFrame_loop.simps)
         (auto simp: bindM_Inl dest: generateOnePose_Inl "1.IH" [OF True])
  qed
qed

lemma generatePoses4oneFrame_loop_length:
  assumes "generatePoses4oneFrame_loop L sensorNames params index useCount 0 [] g = Some (Inr ps, g')"
  shows "length ps = useCount"
proof -
  from generatePoses4oneFrame_loop_Inr [OF assms, of "[]"] obtain qs where
    "length qs = useCount - 0"
    "ps = [] @ map (\<lambda>(k, q). if p_flip params \<and> odd k then flipPose q else q) (zip [0..<useCount] qs)"
    by blast
  then show ?thesis by simp
qed

lemma generatePoses4oneFrame_loop_first:
  assumes "generatePoses4oneFrame_loop L sensorNames params index useCount 0 [] g = Some (Inr ps, g')"
    and "0 < useCount"
  shows "\<not> flip (ps ! 0)"
proof -
  from generatePoses4oneFrame_loop_Inr [OF assms(1), of "[]"] obtain qs where
    qs: "length qs = useCount - 0" "\<forall>q \<in> set qs. \<not> flip q \<and> srcFrame q = index"
    "ps = [] @ map (\<lambda>(k, q). if p_flip params \<and> odd k then flipPose q else q) (zip [0..<useCount] qs)"
    by blast
  from qs(1) assms(2) have "qs ! 0 \<in> set qs" by simp
  with qs(2) have "\<not> flip (qs ! 0)" by blast
  with qs(1,3) assms(2) show ?thesis by simp
qed

lemma generatePoses4oneFrame_zero:
  "generatePoses4oneFrame L T rules sensorNames 0 index trace g = Some (Inr [], g)"
  by (simp add: generatePoses4oneFrame_def returnM_def)

lemma generatePoses4oneFrame_Inr:
  assumes "generatePoses4oneFrame L T rules sensorNames useCount index trace g = Some (Inr ps, g')"
    and "useCount \<noteq> 0"
  shows "\<exists>first_rule. find (\<lambda>rule. doLabelsMatch T trace index (fst rule)) rules = Some first_rule \<and>
           generatePoses4oneFrame_loop L sensorNames (snd first_rule) index (unat useCount) 0 [] g
             = Some (Inr ps, g')"
  using assms
  by (auto simp: generatePoses4oneFrame_def bindM_Inr returnM_def throw_no_rule_apply
           split: option.splits if_splits)

lemma generatePoses4oneFrame_length:
  assumes "generatePoses4oneFrame L T rules sensorNames useCount index trace g = Some (Inr ps, g')"
  shows "length ps = unat useCount"
proof (cases "useCount = 0")
  case True
  with assms show ?thesis by (simp add: generatePoses4oneFrame_zero)
next
  case False
  from generatePoses4oneFrame_Inr [OF assms False] show ?thesis
    by (auto dest: generatePoses4oneFrame_loop_length)
qed

lemma generatePoses4oneFrame_first:
  assumes "generatePoses4oneFrame L T rules sensorNames useCount index trace g = Some (Inr ps, g')"
    and "ps \<noteq> []"
  shows "\<not> flip (ps ! 0)"
proof (cases "useCount = 0")
  case True
  with assms show ?thesis by (simp add: generatePoses4oneFrame_zero)
next
  case False
  then have "0 < unat useCount" by (simp add: unat_gt_0)
  with generatePoses4oneFrame_Inr [OF assms(1) False] show ?thesis
    by (auto dest: generatePoses4oneFrame_loop_first)
qed

lemma generatePoses4oneFrame_Inl:
  "generatePoses4oneFrame L T rules sensorNames useCount index trace g = Some (Inl e, g')
   \<Longrightarrow> e = UnknownDistribution \<or> e = NoMatchingRule \<or> e = UndefinedBehaviour"
  by (auto simp: generatePoses4oneFrame_def bindM_Inl returnM_def throw_no_rule_apply
           split: option.splits if_splits dest: generatePoses4oneFrame_loop_Inl)


lemma generatePoses4oneFrame_matched:
  assumes "useCount \<noteq> 0"
    and "find (\<lambda>rule. doLabelsMatch T trace index (fst rule)) rules = Some (conds, params)"
  shows "generatePoses4oneFrame L T rules sensorNames useCount index trace =
         generatePoses4oneFrame_loop L sensorNames params index (unat useCount) 0 []"
proof
  fix g
  let ?loop = "generatePoses4oneFrame_loop L sensorNames params index (unat useCount) 0 []"
  from assms(1) have pos: "unat useCount \<noteq> 0" by (simp add: unat_eq_0)
  have eq: "generatePoses4oneFrame L T rules sensorNames useCount index trace g =
        bindM ?loop (\<lambda>vecPoses. if length vecPoses = 0 then throw_no_rule index
                                 else returnM vecPoses) g"
    using assms by (simp add: generatePoses4oneFrame_def)
  show "generatePoses4oneFrame L T rules sensorNames useCount index trace g = ?loop g"
  proof (cases "?loop g")
    case None
    with eq show ?thesis by (simp add: bindM_def)
  next
    case (Some r)
    obtain res g' where r: "r = (res, g')" by (cases r)
    show ?thesis
    proof (cases res)
      case (Inl e)
      with eq Some r show ?thesis by (simp add: bindM_def)
    next
      case (Inr ps)
      with Some r have "length ps = unat useCount"
        by (auto dest: generatePoses4oneFrame_loop_length)
      with pos have "length ps \<noteq> 0" by simp
      with eq Some r Inr show ?thesis by (simp add: bindM_def returnM_def)
    qed
  qed
qed

lemma vector_at_Inl: "vector_at xs i g = Some (Inl e, g') \<Longrightarrow> e = OutOfRange"
  by (auto simp: vector_at_def returnM_def throwM_def split: if_splits)

lemma generatePoses4vecFrames_loop_Inr:
  "generatePoses4vecFrames_loop L T rules sensorNames vecUseCounts trace numFrames i vecVecPoses g
     = Some (Inr vv, g')
   \<Longrightarrow> \<exists>new. vv = vecVecPoses @ new \<and> length new = numFrames - i \<and>
         (\<forall>k < numFrames - i. length (new ! k) = unat (vecUseCounts ! (i + k)) \<and>
            (new ! k \<noteq> [] \<longrightarrow> \<not> flip (new ! k ! 0)))"
proof (induction L T rules sensorNames vecUseCounts trace numFrames i vecVecPoses arbitrary: g
       rule: generatePoses4vecFrames_loop.induct)
  case (1 L T rules sensorNames vecUseCounts trace numFrames i vecVecPoses)
  show ?case
  proof (cases "i < numFrames")
    case False
    with "1.prems" show ?thesis
      by (simp add: generatePoses4vecFrames_loop.simps returnM_def)
  next
    case True
    from "1.prems" True obtain useCount g0 Poses g1 where
      at: "vector_at vecUseCounts i g = Some (Inr useCount, g0)" and
      one: "generatePoses4oneFrame L T rules sensorNames useCount (of_nat i) trace g0
              = Some (Inr Poses, g1)" and
      rest: "generatePoses4vecFrames_loop L T rules sensorNames vecUseCounts trace numFrames (Suc i)
               (vecVecPoses @ [Poses]) g1 = Some (Inr vv, g')"
      by (subst (asm) generatePoses4vecFrames_loop.simps) (auto simp: bindM_Inr)
    from at have uc: "useCount = vecUseCounts ! i"
      by (auto simp: vector_at_def returnM_def throwM_def split: if_splits)
    from "1.IH" [OF True rest] obtain new where
      new: "vv = (vecVecPoses @ [Poses]) @ new" "length new = numFrames - Suc i"
        "\<forall>k < numFrames - Suc i. length (new ! k) = unat (vecUseCounts ! (Suc i + k)) \<and>
            (new ! k \<noteq> [] \<longrightarrow> \<not> flip (new ! k ! 0))"
      by blast
    have "vv = vecVecPoses @ (Poses # new)"
      using new(1) by simp
    moreover have "length (Poses # new) = numFrames - i"
      using new(2) True by simp
    moreover have "\<forall>k < numFrames - i. length ((Poses # new) ! k) = unat (vecUseCounts ! (i + k)) \<and>
            ((Poses # new) ! k \<noteq> [] \<longrightarrow> \<not> flip ((Poses # new) ! k ! 0))"
    proof (intro allI impI)
      fix k assume k: "k < numFrames - i"
      show "length ((Poses # new) ! k) = unat (vecUseCounts ! (i + k)) \<and>
            ((Poses # new) ! k \<noteq> [] \<longrightarrow> \<not> flip ((Poses # new) ! k ! 0))"
      proof (cases k)
        case 0
        with uc generatePoses4oneFrame_length [OF one] generatePoses4oneFrame_first [OF one]
        show ?thesis by simp
      next
        case (Suc k')
        with k have "k' < numFrames - Suc i" by simp
        with new(3) Suc show ?thesis by simp
      qed
    qed
    ultimately show ?thesis by blast
  qed
qed

lemma generatePoses4vecFrames_loop_Inl:
  "generatePoses4vecFrames_loop L T rules sensorNames vecUseCounts trace numFrames i vecVecPoses g
     = Some (Inl e, g')
   \<Longrightarrow> e = UnknownDistribution \<or> e = NoMatchingRule \<or> e = OutOfRange \<or>
       e = UndefinedBehaviour"
proof (induction L T rules sensorNames vecUseCounts trace numFrames i vecVecPoses arbitrary: g
       rule: generatePoses4vecFrames_loop.induct)
  case (1 L T rules sensorNames vecUseCounts trace numFrames i vecVecPoses)
  show ?case
  proof (cases "i < numFrames")
    case False
    with "1.prems" show ?thesis
      by (simp add: generatePoses4vecFrames_loop.simps returnM_def)
  next
    case True
    from "1.prems" True show ?thesis
      by (subst (asm) generatePoses4vecFrames_loop.simps)
         (auto simp: bindM_Inl dest: vector_at_Inl generatePoses4oneFrame_Inl "1.IH" [OF True])
  qed
qed

lemma generatePoses4vecFrames_Inr:
  assumes "generatePoses4vecFrames L T rules sensorNames vecUseCounts labelsFileName g
             = Some (Inr vv, g')"
  shows "\<exists>trace. projMetaTrace T labelsFileName = Some trace \<and>
           getNumDatapoints T trace = length vecUseCounts mod 2 ^ 32 \<and>
           length vv = length vecUseCounts mod 2 ^ 32 \<and>
           (\<forall>k < length vv. length (vv ! k) = unat (vecUseCounts ! k) \<and>
              (vv ! k \<noteq> [] \<longrightarrow> \<not> flip (vv ! k ! 0)))"
proof -
  let ?n = "length vecUseCounts mod 2 ^ 32"
  from assms obtain trace g1 where
    tr: "projMetaTrace T labelsFileName = Some trace" "getNumDatapoints T trace = ?n" and
    loop: "generatePoses4vecFrames_loop L T rules sensorNames vecUseCounts trace ?n 0 [] g
             = Some (Inr vv, g1)"
    by (auto simp: generatePoses4vecFrames_def Let_def bindM_Inr returnM_def throwM_def
             split: option.splits if_splits)
  from generatePoses4vecFrames_loop_Inr [OF loop] tr show ?thesis
    by auto
qed

lemma generatePoses4vecFrames_Inl:
  assumes "generatePoses4vecFrames L T rules sensorNames vecUseCounts labelsFileName g
             = Some (Inl FrameCountMismatch, g')"
  shows "\<exists>trace. projMetaTrace T labelsFileName = Some trace \<and>
           getNumDatapoints T trace \<noteq> length vecUseCounts mod 2 ^ 32 \<and> g' = g"
  using assms
  by (auto simp: generatePoses4vecFrames_def Let_def bindM_Inl returnM_def throwM_def
           split: option.splits if_splits dest: generatePoses4vecFrames_loop_Inl
                  generatePoses4vecFrames_loop_Inr)

lemma generatePoses4vecFrames_wrapped:
  assumes "length vecUseCounts mod 2 ^ 32 = 0"
    and "projMetaTrace T labelsFileName = Some trace"
    and "getNumDatapoints T trace = 0"
  shows "generatePoses4vecFrames L T rules sensorNames vecUseCounts labelsFileName g
           = Some (Inr [], g)"
  using assms
  by (simp add: generatePoses4vecFrames_def Let_def generatePoses4vecFrames_loop.simps
        bindM_def returnM_def)


text \<open>
  A frame that needs poses and matches no rule: up to frame 37 the call ends in the
  exception for it, and in nothing else; from frame 38 on it ends in undefined
  behaviour.
\<close>

lemma generatePoses4oneFrame_unmatched:
  assumes "generatePoses4oneFrame L T rules sensorNames useCount index trace g = Some (Inl e, g')"
    and "e = NoMatchingRule \<or> e = UndefinedBehaviour"
  shows "useCount \<noteq> 0 \<and> (\<forall>rule \<in> set rules. \<not> doLabelsMatch T trace index (fst rule)) \<and>
         e = (if unat index \<le> 37 then NoMatchingRule else UndefinedBehaviour) \<and> g' = g"
proof -
  have nz: "useCount \<noteq> 0"
    using assms(1) by (auto simp: generatePoses4oneFrame_zero)
  have none: "find (\<lambda>rule. doLabelsMatch T trace index (fst rule)) rules = None"
  proof (rule ccontr)
    assume "find (\<lambda>rule. doLabelsMatch T trace index (fst rule)) rules \<noteq> None"
    then obtain conds params where
      found: "find (\<lambda>rule. doLabelsMatch T trace index (fst rule)) rules = Some (conds, params)"
      by auto
    from assms(1) have
      "generatePoses4oneFrame_loop L sensorNames params index (unat useCount) 0 [] g
         = Some (Inl e, g')"
      unfolding generatePoses4oneFrame_matched [OF nz found] .
    with assms(2) show False by (auto dest: generatePoses4oneFrame_loop_Inl)
  qed
  with nz assms(1) have
    "e = (if unat index \<le> 37 then NoMatchingRule else UndefinedBehaviour) \<and> g' = g"
    by (simp add: generatePoses4oneFrame_def bindM_def returnM_def throw_no_rule_apply)
  with nz none show ?thesis by (auto simp: find_None_iff)
qed

lemma generatePoses4oneFrame_no_rule:
  assumes "unat index \<le> 37"
  shows "(\<exists>g'. generatePoses4oneFrame L T rules sensorNames useCount index trace g
            = Some (Inl NoMatchingRule, g')) \<longleftrightarrow>
         (useCount \<noteq> 0 \<and> (\<forall>rule \<in> set rules. \<not> doLabelsMatch T trace index (fst rule)))"
    (is "?thrown \<longleftrightarrow> ?unmatched")
proof
  assume ?thrown
  then obtain g' where "generatePoses4oneFrame L T rules sensorNames useCount index trace g
      = Some (Inl NoMatchingRule, g')" ..
  from generatePoses4oneFrame_unmatched [OF this] show ?unmatched
    by simp
next
  assume ?unmatched
  then have "useCount \<noteq> 0"
    "find (\<lambda>rule. doLabelsMatch T trace index (fst rule)) rules = None"
    by (auto simp: find_None_iff)
  with assms have "generatePoses4oneFrame L T rules sensorNames useCount index trace g
               = Some (Inl NoMatchingRule, g)"
    by (simp add: generatePoses4oneFrame_def bindM_def returnM_def throw_no_rule_apply)
  then show ?thrown ..
qed

lemma generatePoses4oneFrame_undefined:
  "generatePoses4oneFrame L T rules sensorNames useCount index trace g
     = Some (Inl UndefinedBehaviour, g') \<longleftrightarrow>
   (useCount \<noteq> 0 \<and> (\<forall>rule \<in> set rules. \<not> doLabelsMatch T trace index (fst rule)) \<and>
    37 < unat index \<and> g' = g)"
    (is "?undefined \<longleftrightarrow> ?late")
proof
  assume ?undefined
  from generatePoses4oneFrame_unmatched [OF this] show ?late
    by (auto split: if_splits)
next
  assume ?late
  then have "useCount \<noteq> 0"
    "find (\<lambda>rule. doLabelsMatch T trace index (fst rule)) rules = None"
    "37 < unat index" "g' = g"
    by (auto simp: find_None_iff)
  then show ?undefined
    by (simp add: generatePoses4oneFrame_def bindM_def returnM_def throw_no_rule_apply)
qed


section \<open>Facts about the shuffle stage and the constructor\<close>

lemma generateShuffledPoses_loop_first:
  assumes "generateShuffledPoses_loop L ps g = Some r"
  shows "case fst r of Inl e \<Rightarrow> e = OutOfRange | Inr ps' \<Rightarrow> ps' \<noteq> [] \<and> \<not> flip (hd ps')"
  by (rule generateShuffledPoses_loop.raw_induct
        [where P = "\<lambda>L ps g r. case fst r of Inl e \<Rightarrow> e = OutOfRange
                                | Inr ps' \<Rightarrow> ps' \<noteq> [] \<and> \<not> flip (hd ps')",
         OF _ assms])
     (auto split: if_splits prod.splits list.splits)



section \<open>Runs of the scripted environment\<close>

lemma p_flip_rules: "p_flip flipRule" "\<not> p_flip plainRule"
  by (simp_all add: flipRule_def plainRule_def)

lemma scripted_shuffle: "std_shuffle scripted_stdlib xs (u # g) = (rotate (nat \<lfloor>u\<rfloor>) xs, g)"
  by (simp add: scripted_stdlib_def scripted_next_def)

lemma scripted_getRandom_half:
  "getRandom scripted_stdlib halfParams (u # g) = Some (Inr (double_to_float (u - 1 / 2)), g)"
  by (simp add: getRandom_def genUniformRV_def halfParams_def scripted_stdlib_def
        scripted_next_def)

lemma scripted_getRandom_zero:
  "getRandom scripted_stdlib zeroParams (u # g) = Some (Inr 0, g)"
  by (simp add: getRandom_def genGaussianRV_def genGaussianRV_loop.simps zeroParams_def
        scripted_stdlib_def scripted_next_def double_to_float_exact)

lemma scripted_generateOnePose:
  "generateOnePose scripted_stdlib [] flipRule (u1 # u2 # u3 # g) =
     Some (Inr \<lparr>shift = double_to_float (u1 - 1 / 2), rotation = 0, forward = 0,
       sensor_yaw = Map.empty, sensor_pitch = Map.empty, sensor_roll = Map.empty,
       flip = False, srcFrame = 0\<rparr>, g)"
  by (simp add: generateOnePose_def flipRule_def bindM_def returnM_def empty_Pose_def
        scripted_getRandom_half scripted_getRandom_zero)



lemma scripted_projMetaTrace:
  "projMetaTrace scripted_traces ''labels.csv'' = Some exampleTrace"
  "projMetaTrace scripted_traces ''empty.csv'' = Some []"
  by (simp_all add: scripted_traces_def)

lemma scripted_find:
  "find (\<lambda>rule. doLabelsMatch scripted_traces exampleTrace 0 (fst rule)) exampleTable
     = Some ([(''road_type'', ''highway'')], flipRule)"
  "find (\<lambda>rule. doLabelsMatch scripted_traces exampleTrace 2 (fst rule)) exampleTable
     = Some ([(''road_type'', ''local'')], plainRule)"
  by (simp_all add: scripted_traces_def exampleTrace_def exampleTable_def)


lemma scripted_oneFrame:
  "generatePoses4oneFrame scripted_stdlib scripted_traces exampleTable [] 2 0
     exampleTrace [3 / 4, 0, 0, 1, 0, 0] =
   Some (Inr [unflipped (1/4) 0, flipPose (unflipped (1/2) 0)], [])"
  by (simp add: generatePoses4oneFrame_def scripted_find
     generatePoses4oneFrame_loop.simps bindM_def returnM_def throwM_def flipPose_def
     scripted_generateOnePose double_to_float_exact unflipped_def p_flip_rules)





lemma scripted_vecFrames:
  "generatePoses4vecFrames scripted_stdlib scripted_traces exampleTable [] [2, 0, 1] ''labels.csv''
      (3 / 4 # 0 # 0 # 1 # 0 # 0 # 1 / 2 # 0 # 0 # g) =
   Some (Inr [[unflipped (1/4) 0, flipPose (unflipped (1/2) 0)], [], [unflipped 0 2]], g)"
  by (simp add: generatePoses4vecFrames_def generatePoses4vecFrames_loop.simps vector_at_def
     generatePoses4oneFrame_def exampleTable_def scripted_traces_def exampleTrace_def
     plainRule_def generatePoses4oneFrame_loop.simps bindM_def returnM_def throwM_def
     flipPose_def generateOnePose_p_flip unflipped_def p_flip_rules
     scripted_generateOnePose double_to_float_exact)

lemma scripted_shuffled:
  "generateShuffledPoses scripted_stdlib scripted_traces exampleTable [] [2, 0, 1] ''labels.csv''
      [3 / 4, 0, 0, 1, 0, 0, 1 / 2, 0, 0, 1, 1] =
   Some (Inr [unflipped 0 2, unflipped (1/4) 0, flipPose (unflipped (1/2) 0)], [])"
  by (simp add: generateShuffledPoses_def generateShuffledPoses_loop.simps
     scripted_vecFrames bindM_def returnM_def flipPose_def unflipped_def scripted_shuffle)

section \<open>The claims\<close>

text \<open>
  C1. Claim: for every \<open>randParams\<close> with \<open>max \<ge> 0\<close>, every value that \<^verbatim>\<open>getRandom\<close>
  returns satisfies \<open>\<bar>value\<bar> \<le> max\<close>, so every field of every pose is within its bound.
  The rejection loop does leave a \<^verbatim>\<open>double\<close> within the bound
  (\<open>getRandom_gaussian_double\<close>), and the value returned is within a bound that is a
  \<^verbatim>\<open>float\<close> (\<open>getRandom_gaussian_bounded\<close>); but \<^verbatim>\<open>genGaussianRV\<close> returns
  \<^verbatim>\<open>float\<close>, and the conversion rounds upwards past a bound that is none. With the test's
  parameters for \<^verbatim>\<open>forward\<close> (\<open>max = 0.8\<close>, \<open>stdDev = 0.5\<close>) and an accepted draw of the
  \<^verbatim>\<open>double\<close> 0.8, the value returned is \<open>13421773 / 2^24 = 0.800000011920929\<close>, which
  is greater than \<open>max\<close>: the bound that the header and the test state is broken.
\<close>

theorem getRandom_float_exceeds_max:
  "getRandom scripted_stdlib forwardParams [2 * double_0_8]
     = Some (Inr (13421773 / 16777216), []) \<and>
   \<not> \<bar>13421773 / 16777216 :: real\<bar> \<le> rp_max forwardParams"
proof -
  have "std_normal_call scripted_stdlib
          (std_normal_distribution scripted_stdlib 0 (stdDev forwardParams)) [2 * double_0_8]
        = (double_0_8, (0, 1 / 2), [])"
    by (simp add: scripted_stdlib_def scripted_next_def forwardParams_def)
  then have "getRandom scripted_stdlib forwardParams [2 * double_0_8]
     = Some (Inr (13421773 / 16777216), [])"
    by (rule getRandom_rounds_above_max)
  moreover have "\<not> \<bar>13421773 / 16777216 :: real\<bar> \<le> rp_max forwardParams"
    by (simp add: forwardParams_def double_0_8_def)
  ultimately show ?thesis by (rule conjI)
qed




text \<open>
  C3. For a frame whose first matching rule has parameters \<open>params\<close>, the poses returned
  are the synthesized ones (what the loop returns from the same engine state with
  \<open>p_flip\<close> off, all unflipped) with, when \<open>p_flip params\<close> holds, each pose at an odd
  index replaced by its flipped counterpart: \<open>flip\<close> set, \<open>shift\<close> and \<open>rotation\<close>
  negated, the other fields unchanged. Every other pose is the synthesized one,
  with \<open>flip\<close> false; so without \<open>p_flip\<close> no pose is flipped.
\<close>

theorem flipped_poses_at_odd_indices:
  assumes "find (\<lambda>rule. doLabelsMatch T trace index (fst rule)) rules = Some (conds, params)"
    and "generatePoses4oneFrame L T rules sensorNames useCount index trace g
           = Some (Inr vecPoses, g')"
  shows "\<exists>synthesized.
           generatePoses4oneFrame_loop L sensorNames (params\<lparr>p_flip := False\<rparr>) index
             (unat useCount) 0 [] g = Some (Inr synthesized, g') \<and>
           length synthesized = unat useCount \<and> length vecPoses = unat useCount \<and>
           (\<forall>i < unat useCount.
              \<not> flip (synthesized ! i) \<and>
              (if p_flip params \<and> odd i
               then vecPoses ! i = flipPose (synthesized ! i) \<and>
                    flip (vecPoses ! i) \<and>
                    shift (vecPoses ! i) = - shift (synthesized ! i) \<and>
                    rotation (vecPoses ! i) = - rotation (synthesized ! i) \<and>
                    forward (vecPoses ! i) = forward (synthesized ! i) \<and>
                    sensor_yaw (vecPoses ! i) = sensor_yaw (synthesized ! i) \<and>
                    sensor_pitch (vecPoses ! i) = sensor_pitch (synthesized ! i) \<and>
                    sensor_roll (vecPoses ! i) = sensor_roll (synthesized ! i) \<and>
                    srcFrame (vecPoses ! i) = srcFrame (synthesized ! i)
               else vecPoses ! i = synthesized ! i \<and> \<not> flip (vecPoses ! i)))"
proof -
  let ?n = "unat useCount"
  have loop: "generatePoses4oneFrame_loop L sensorNames params index ?n 0 [] g
                = Some (Inr vecPoses, g')"
  proof (cases "useCount = 0")
    case True
    with assms(2) show ?thesis
      by (simp add: generatePoses4oneFrame_zero generatePoses4oneFrame_loop.simps returnM_def)
  next
    case False
    show ?thesis
      using assms(2) unfolding generatePoses4oneFrame_matched [OF False assms(1)] .
  qed
  from generatePoses4oneFrame_loop_Inr [OF loop, of "[]"] obtain qs where
    qs: "generatePoses4oneFrame_loop L sensorNames (params\<lparr>p_flip := False\<rparr>) index ?n 0 [] g
           = Some (Inr qs, g')"
      "length qs = ?n"
      "\<forall>q \<in> set qs. \<not> flip q \<and> srcFrame q = index"
      "vecPoses = map (\<lambda>(k, q). if p_flip params \<and> odd k then flipPose q else q)
                    (zip [0..<?n] qs)"
    by auto
  have "\<not> flip (qs ! i) \<and>
        (if p_flip params \<and> odd i
         then vecPoses ! i = flipPose (qs ! i) \<and> flip (vecPoses ! i) \<and>
              shift (vecPoses ! i) = - shift (qs ! i) \<and>
              rotation (vecPoses ! i) = - rotation (qs ! i) \<and>
              forward (vecPoses ! i) = forward (qs ! i) \<and>
              sensor_yaw (vecPoses ! i) = sensor_yaw (qs ! i) \<and>
              sensor_pitch (vecPoses ! i) = sensor_pitch (qs ! i) \<and>
              sensor_roll (vecPoses ! i) = sensor_roll (qs ! i) \<and>
              srcFrame (vecPoses ! i) = srcFrame (qs ! i)
         else vecPoses ! i = qs ! i \<and> \<not> flip (vecPoses ! i))" if i: "i < ?n" for i
  proof -
    from i qs(2) have "qs ! i \<in> set qs" by simp
    with qs(3) have unfl: "\<not> flip (qs ! i)" by blast
    from i qs(2,4) have
      "vecPoses ! i = (if p_flip params \<and> odd i then flipPose (qs ! i) else qs ! i)"
      by simp
    with unfl show ?thesis by (simp add: flipPose_def)
  qed
  moreover have "length vecPoses = ?n"
    using qs(2,4) by simp
  ultimately show ?thesis
    using qs(1,2) by blast
qed

theorem flipped_poses_at_odd_indices_witness:
  "find (\<lambda>rule. doLabelsMatch scripted_traces exampleTrace 0 (fst rule)) exampleTable
     = Some ([(''road_type'', ''highway'')], flipRule) \<and>
   generatePoses4oneFrame scripted_stdlib scripted_traces exampleTable [] 2 0
     exampleTrace [3 / 4, 0, 0, 1, 0, 0] =
   Some (Inr [unflipped (1/4) 0, flipPose (unflipped (1/2) 0)], []) \<and>
   (\<exists>synthesized. length synthesized = 2 \<and>
      \<not> flip (synthesized ! 0) \<and> \<not> flip (synthesized ! 1) \<and>
      unflipped (1/4) 0 = synthesized ! 0 \<and>
      flipPose (unflipped (1/2) 0) = flipPose (synthesized ! 1))"
proof -
  from flipped_poses_at_odd_indices [OF scripted_find(1) scripted_oneFrame]
  obtain synthesized where
    len: "length synthesized = unat (2 :: 32 word)" and
    each: "\<forall>i < unat (2 :: 32 word).
              \<not> flip (synthesized ! i) \<and>
              (if p_flip flipRule \<and> odd i
               then [unflipped (1/4) 0, flipPose (unflipped (1/2) 0)] ! i = flipPose (synthesized ! i) \<and>
                    flip ([unflipped (1/4) 0, flipPose (unflipped (1/2) 0)] ! i) \<and>
                    shift ([unflipped (1/4) 0, flipPose (unflipped (1/2) 0)] ! i) = - shift (synthesized ! i) \<and>
                    rotation ([unflipped (1/4) 0, flipPose (unflipped (1/2) 0)] ! i) = - rotation (synthesized ! i) \<and>
                    forward ([unflipped (1/4) 0, flipPose (unflipped (1/2) 0)] ! i) = forward (synthesized ! i) \<and>
                    sensor_yaw ([unflipped (1/4) 0, flipPose (unflipped (1/2) 0)] ! i) = sensor_yaw (synthesized ! i) \<and>
                    sensor_pitch ([unflipped (1/4) 0, flipPose (unflipped (1/2) 0)] ! i) = sensor_pitch (synthesized ! i) \<and>
                    sensor_roll ([unflipped (1/4) 0, flipPose (unflipped (1/2) 0)] ! i) = sensor_roll (synthesized ! i) \<and>
                    srcFrame ([unflipped (1/4) 0, flipPose (unflipped (1/2) 0)] ! i) = srcFrame (synthesized ! i)
               else [unflipped (1/4) 0, flipPose (unflipped (1/2) 0)] ! i = synthesized ! i \<and>
                    \<not> flip ([unflipped (1/4) 0, flipPose (unflipped (1/2) 0)] ! i))"
    by blast
  from each [rule_format, of 0] each [rule_format, of 1] len
  have "length synthesized = 2 \<and>
      \<not> flip (synthesized ! 0) \<and> \<not> flip (synthesized ! 1) \<and>
      unflipped (1/4) 0 = synthesized ! 0 \<and>
      flipPose (unflipped (1/2) 0) = flipPose (synthesized ! 1)"
    by (simp add: p_flip_rules)
  with scripted_find(1) scripted_oneFrame show ?thesis by blast
qed


text \<open>
  C4. Whenever \<^verbatim>\<open>generateShuffledPoses\<close> returns a sequence, the sequence is empty or
  its first pose is not flipped.
\<close>

theorem shuffled_first_pose_unflipped:
  assumes "generateShuffledPoses L T rules sensorNames vecUseCounts labelsFileName g
             = Some (Inr ps, g')"
  shows "ps = [] \<or> \<not> flip (ps ! 0)"
proof -
  from assms obtain unshuffledPoses g1 where
    rest: "(let flattenedPoses = concat unshuffledPoses
            in if length flattenedPoses = 0 then returnM []
               else (\<lambda>g. case std_shuffle L flattenedPoses g of
                            (flattenedPoses', g') \<Rightarrow> generateShuffledPoses_loop L flattenedPoses' g'))
           g1 = Some (Inr ps, g')"
    unfolding generateShuffledPoses_def bindM_Inr by blast
  show ?thesis
  proof (cases "concat unshuffledPoses = []")
    case True
    with rest show ?thesis by (simp add: returnM_def)
  next
    case False
    then have ne: "(length (concat unshuffledPoses) = 0) = False" by simp
    obtain fp g2 where sh: "std_shuffle L (concat unshuffledPoses) g1 = (fp, g2)"
      by (cases "std_shuffle L (concat unshuffledPoses) g1")
    from rest have "generateShuffledPoses_loop L fp g2 = Some (Inr ps, g')"
      unfolding Let_def ne if_False sh prod.case .
    from generateShuffledPoses_loop_first [OF this] show ?thesis
      by (auto simp: hd_conv_nth)
  qed
qed

theorem shuffled_first_pose_unflipped_witness:
  "generateShuffledPoses scripted_stdlib scripted_traces exampleTable [] [2, 0, 1] ''labels.csv''
      [3 / 4, 0, 0, 1, 0, 0, 1 / 2, 0, 0, 1, 1] =
   Some (Inr [unflipped 0 2, unflipped (1/4) 0, flipPose (unflipped (1/2) 0)], []) \<and>
   \<not> flip ([unflipped 0 2, unflipped (1/4) 0, flipPose (unflipped (1/2) 0)] ! 0)"
  using shuffled_first_pose_unflipped [OF scripted_shuffled] scripted_shuffled
  by simp


text \<open>
  C5, amended. For a vector of fewer than \<open>2^32\<close> use counts, whenever
  \<^verbatim>\<open>generatePoses4vecFrames\<close> returns, the result has as many frames as there are use
  counts, which is the trace's number of datapoints, and frame \<open>i\<close> has
  \<open>vecUseCounts[i]\<close> poses.
\<close>

theorem vecFrames_result_lengths:
  assumes "length vecUseCounts < 2 ^ 32"
    and "generatePoses4vecFrames L T rules sensorNames vecUseCounts labelsFileName g
           = Some (Inr result, g')"
  shows "length result = length vecUseCounts \<and>
         (\<exists>trace. projMetaTrace T labelsFileName = Some trace \<and>
                   getNumDatapoints T trace = length vecUseCounts) \<and>
         (\<forall>i < length vecUseCounts. length (result ! i) = unat (vecUseCounts ! i))"
  using generatePoses4vecFrames_Inr [OF assms(2)] assms(1) by auto

theorem vecFrames_result_lengths_witness:
  "length [2, 0, 1 :: 32 word] < 2 ^ 32 \<and>
   generatePoses4vecFrames scripted_stdlib scripted_traces exampleTable [] [2, 0, 1] ''labels.csv''
      [3 / 4, 0, 0, 1, 0, 0, 1 / 2, 0, 0] =
   Some (Inr [[unflipped (1/4) 0, flipPose (unflipped (1/2) 0)], [], [unflipped 0 2]], []) \<and>
   length [[unflipped (1/4) 0, flipPose (unflipped (1/2) 0)], [], [unflipped 0 2]]
     = length [2, 0, 1 :: 32 word] \<and>
   (\<exists>trace. projMetaTrace scripted_traces ''labels.csv'' = Some trace \<and>
             getNumDatapoints scripted_traces trace = length [2, 0, 1 :: 32 word])"
proof -
  have small: "length [2, 0, 1 :: 32 word] < 2 ^ 32" by simp
  from vecFrames_result_lengths [OF small scripted_vecFrames] small scripted_vecFrames
  show ?thesis by blast
qed


text \<open>
  C5 as stated fails for a longer vector: \<^verbatim>\<open>numFrames\<close> is a \<^verbatim>\<open>uint32_t\<close>, so for
  \<open>2^32\<close> use counts and a trace without datapoints the function returns no frame
  at all.
\<close>

theorem vecFrames_length_wraps:
  "generatePoses4vecFrames scripted_stdlib scripted_traces exampleTable [] (replicate (2 ^ 32) 0)
      ''empty.csv'' [] = Some (Inr [], []) \<and>
   length ([] :: Pose list list) \<noteq> length (replicate (2 ^ 32) (0 :: 32 word))"
proof -
  have zero: "getNumDatapoints scripted_traces [] = 0"
    by (simp add: scripted_traces_def)
  have "length (replicate (2 ^ 32) (0 :: 32 word)) mod 2 ^ 32 = 0"
    by (simp only: length_replicate mod_self)
  then have "generatePoses4vecFrames scripted_stdlib scripted_traces exampleTable []
      (replicate (2 ^ 32) 0) ''empty.csv'' [] = Some (Inr [], [])"
    using scripted_projMetaTrace(2) zero by (rule generatePoses4vecFrames_wrapped)
  moreover have "length ([] :: Pose list list) \<noteq> length (replicate (2 ^ 32) (0 :: 32 word))"
    by (simp only: length_replicate list.size) simp
  ultimately show ?thesis by (rule conjI)
qed


text \<open>
  C6. Claim: with \<open>useCount = 0\<close>, \<^verbatim>\<open>generatePoses4oneFrame\<close> returns the empty
  sequence without error for every frame index, and it fails with the error of a
  frame without rule exactly when \<open>useCount > 0\<close> and no rule of the table matches.
  The first half holds (\<open>generatePoses4oneFrame_zero\<close>), and the second holds for a
  frame index up to 37 (\<open>generatePoses4oneFrame_no_rule\<close>). For a larger index the
  operand of the \<^verbatim>\<open>throw\<close> in line 140 reads past the string literal
  (\<open>generatePoses4oneFrame_undefined\<close>): at frame 38 of a trace of 39 frames, with
  \<open>useCount = 1\<close> and no rule matching the frame, the call does not end in that error
  but in undefined behaviour.
\<close>

theorem oneFrame_no_rule_undefined:
  "(1 :: 32 word) \<noteq> 0 \<and>
   find (\<lambda>rule. doLabelsMatch scripted_traces longTrace 38 (fst rule)) exampleTable = None \<and>
   generatePoses4oneFrame scripted_stdlib scripted_traces exampleTable [] 1 38 longTrace [1 / 2]
     = Some (Inl UndefinedBehaviour, [1 / 2])"
proof -
  have unmatched:
    "find (\<lambda>rule. doLabelsMatch scripted_traces longTrace 38 (fst rule)) exampleTable = None"
    by (simp add: scripted_traces_def longTrace_def exampleTable_def nth_append)
  then have "generatePoses4oneFrame scripted_stdlib scripted_traces exampleTable [] 1 38 longTrace
      [1 / 2] = Some (Inl UndefinedBehaviour, [1 / 2])"
    by (simp add: generatePoses4oneFrame_def bindM_def returnM_def throw_no_rule_apply)
  with unmatched show ?thesis by simp
qed


text \<open>
  C7, amended. For a vector of fewer than \<open>2^32\<close> use counts and a trace that loads,
  \<^verbatim>\<open>generatePoses4vecFrames\<close> throws the frame count mismatch exactly when the number
  of use counts differs from the trace's number of datapoints; it then throws with
  the engine untouched, so before any pose is generated.
\<close>

theorem frameCountMismatch_iff:
  assumes "length vecUseCounts < 2 ^ 32"
    and "projMetaTrace T labelsFileName = Some trace"
  shows "((\<exists>g'. generatePoses4vecFrames L T rules sensorNames vecUseCounts labelsFileName g
             = Some (Inl FrameCountMismatch, g')) \<longleftrightarrow>
          length vecUseCounts \<noteq> getNumDatapoints T trace) \<and>
         (length vecUseCounts \<noteq> getNumDatapoints T trace \<longrightarrow>
            generatePoses4vecFrames L T rules sensorNames vecUseCounts labelsFileName g
              = Some (Inl FrameCountMismatch, g))"
proof -
  have thrown: "generatePoses4vecFrames L T rules sensorNames vecUseCounts labelsFileName g
              = Some (Inl FrameCountMismatch, g)"
    if "length vecUseCounts \<noteq> getNumDatapoints T trace"
    using that assms by (auto simp: generatePoses4vecFrames_def Let_def throwM_def)
  have "length vecUseCounts \<noteq> getNumDatapoints T trace"
    if "generatePoses4vecFrames L T rules sensorNames vecUseCounts labelsFileName g
             = Some (Inl FrameCountMismatch, g')" for g'
    using generatePoses4vecFrames_Inl [OF that] assms by auto
  with thrown show ?thesis by blast
qed

theorem frameCountMismatch_iff_witness:
  "length [1, 1 :: 32 word] < 2 ^ 32 \<and>
   projMetaTrace scripted_traces ''labels.csv'' = Some exampleTrace \<and>
   length [1, 1 :: 32 word] \<noteq> getNumDatapoints scripted_traces exampleTrace \<and>
   generatePoses4vecFrames scripted_stdlib scripted_traces exampleTable [] [1, 1] ''labels.csv'' [1 / 2]
     = Some (Inl FrameCountMismatch, [1 / 2])"
proof -
  have small: "length [1, 1 :: 32 word] < 2 ^ 32" by simp
  have differs: "length [1, 1 :: 32 word] \<noteq> getNumDatapoints scripted_traces exampleTrace"
    by (simp add: scripted_traces_def exampleTrace_def)
  from frameCountMismatch_iff [OF small scripted_projMetaTrace(1), of scripted_stdlib exampleTable
      "[]" "[1 / 2]"] differs
  have "generatePoses4vecFrames scripted_stdlib scripted_traces exampleTable [] [1, 1]
      ''labels.csv'' [1 / 2] = Some (Inl FrameCountMismatch, [1 / 2])"
    by blast
  with small differs scripted_projMetaTrace(1) show ?thesis by blast
qed


text \<open>
  C7 as stated fails for a longer vector: \<open>2^32\<close> use counts against a trace without
  datapoints differ in number, and the function returns normally.
\<close>

theorem frameCountMismatch_missed:
  "projMetaTrace scripted_traces ''empty.csv'' = Some [] \<and>
   length (replicate (2 ^ 32) (1 :: 32 word)) \<noteq> getNumDatapoints scripted_traces [] \<and>
   generatePoses4vecFrames scripted_stdlib scripted_traces exampleTable [] (replicate (2 ^ 32) 1)
      ''empty.csv'' [] = Some (Inr [], [])"
proof -
  have zero: "getNumDatapoints scripted_traces [] = 0"
    by (simp add: scripted_traces_def)
  have "length (replicate (2 ^ 32) (1 :: 32 word)) mod 2 ^ 32 = 0"
    by (simp only: length_replicate mod_self)
  then have "generatePoses4vecFrames scripted_stdlib scripted_traces exampleTable []
      (replicate (2 ^ 32) 1) ''empty.csv'' [] = Some (Inr [], [])"
    using scripted_projMetaTrace(2) zero by (rule generatePoses4vecFrames_wrapped)
  moreover have "length (replicate (2 ^ 32) (1 :: 32 word)) \<noteq> getNumDatapoints scripted_traces []"
    unfolding zero by (simp only: length_replicate) simp
  ultimately show ?thesis using scripted_projMetaTrace(2) by blast
qed







text \<open>
  C10. For a frame with \<open>useCount > 0\<close>, whenever \<^verbatim>\<open>generatePoses4oneFrame\<close> returns,
  the list is not empty and its pose at index 0 is not flipped; hence whenever
  \<^verbatim>\<open>generatePoses4vecFrames\<close> returns frames that hold a pose at all, one of the
  poses is not flipped.
\<close>

theorem first_pose_of_frame_unflipped:
  "(useCount \<noteq> 0 \<and>
    generatePoses4oneFrame L T rules sensorNames useCount index trace g = Some (Inr ps, g')
      \<longrightarrow> ps \<noteq> [] \<and> \<not> flip (ps ! 0)) \<and>
   (generatePoses4vecFrames L T rules sensorNames vecUseCounts labelsFileName g0
      = Some (Inr vv, g1) \<and> concat vv \<noteq> []
      \<longrightarrow> (\<exists>p \<in> set (concat vv). \<not> flip p))"
proof -
  have "ps \<noteq> [] \<and> \<not> flip (ps ! 0)"
    if a: "useCount \<noteq> 0 \<and>
      generatePoses4oneFrame L T rules sensorNames useCount index trace g = Some (Inr ps, g')"
  proof -
    from a have "length ps = unat useCount"
      by (auto dest: generatePoses4oneFrame_length)
    with a have ne: "ps \<noteq> []" by (auto simp: unat_eq_0)
    with a generatePoses4oneFrame_first [of L T rules sensorNames useCount index trace g ps g']
    show ?thesis by simp
  qed
  moreover have "\<exists>p \<in> set (concat vv). \<not> flip p"
    if a: "generatePoses4vecFrames L T rules sensorNames vecUseCounts labelsFileName g0
      = Some (Inr vv, g1) \<and> concat vv \<noteq> []"
  proof -
    from a obtain k where k: "k < length vv" "vv ! k \<noteq> []"
      by (auto simp: in_set_conv_nth)
    with a generatePoses4vecFrames_Inr [of L T rules sensorNames vecUseCounts labelsFileName g0 vv g1]
    have "\<not> flip (vv ! k ! 0)" by auto
    moreover from k have "vv ! k ! 0 \<in> set (vv ! k)" "vv ! k \<in> set vv"
      by simp_all
    then have "vv ! k ! 0 \<in> set (concat vv)" by auto
    ultimately show ?thesis by blast
  qed
  ultimately show ?thesis by blast
qed

theorem first_pose_of_frame_unflipped_witness:
  "generatePoses4oneFrame scripted_stdlib scripted_traces exampleTable [] 2 0
     exampleTrace [3 / 4, 0, 0, 1, 0, 0] =
   Some (Inr [unflipped (1/4) 0, flipPose (unflipped (1/2) 0)], []) \<and>
   \<not> flip ([unflipped (1/4) 0, flipPose (unflipped (1/2) 0)] ! 0) \<and>
   generatePoses4vecFrames scripted_stdlib scripted_traces exampleTable [] [2, 0, 1] ''labels.csv''
      [3 / 4, 0, 0, 1, 0, 0, 1 / 2, 0, 0] =
   Some (Inr [[unflipped (1/4) 0, flipPose (unflipped (1/2) 0)], [], [unflipped 0 2]], []) \<and>
   (\<exists>p \<in> set (concat [[unflipped (1/4) 0, flipPose (unflipped (1/2) 0)], [], [unflipped 0 2]]).
      \<not> flip p)"
proof -
  note claim = first_pose_of_frame_unflipped
    [where L = scripted_stdlib and T = scripted_traces and rules = exampleTable
       and sensorNames = "[]" and useCount = 2 and index = 0 and trace = exampleTrace
       and g = "[3 / 4, 0, 0, 1, 0, 0]"
       and ps = "[unflipped (1/4) 0, flipPose (unflipped (1/2) 0)]" and g' = "[]"
       and vecUseCounts = "[2, 0, 1]" and labelsFileName = "''labels.csv''"
       and ?g0.0 = "[3 / 4, 0, 0, 1, 0, 0, 1 / 2, 0, 0]"
       and vv = "[[unflipped (1/4) 0, flipPose (unflipped (1/2) 0)], [], [unflipped 0 2]]"
       and ?g1.0 = "[]"]
  have "\<not> flip ([unflipped (1/4) 0, flipPose (unflipped (1/2) 0)] ! 0)"
    using claim [THEN conjunct1] scripted_oneFrame by simp
  moreover have
    "\<exists>p \<in> set (concat [[unflipped (1/4) 0, flipPose (unflipped (1/2) 0)], [], [unflipped 0 2]]).
      \<not> flip p"
    using claim [THEN conjunct2] scripted_vecFrames [of "[]"] by simp
  ultimately show ?thesis
    using scripted_oneFrame scripted_vecFrames [of "[]"] by simp
qed


end
